theory Spec2Isabelle
  imports Main "HOL-Library.Countable"
begin

section \<open>Data model\<close>

text \<open>
  The tables of \<^verbatim>\<open>prisma/schema.prisma\<close> and the interfaces of
  \<^verbatim>\<open>src/app.controller.ts\<close>. Columns of type \<^verbatim>\<open>Int\<close> are integers, a column
  marked \<^verbatim>\<open>?\<close> is an option, and a \<^verbatim>\<open>number\<close> that a request brings is a rational
  number (the value of the JSON number, which need not be whole). The primary keys are called \<open>u_id\<close> and \<open>mb_id\<close>
  (the schema calls both \<^verbatim>\<open>id\<close>), the identifier of a catalog volume
  \<open>gb_id\<close>. The columns \<^verbatim>\<open>createdAt\<close> and \<^verbatim>\<open>updatedAt\<close>, which the database
  fills from its clock, and the table \<^verbatim>\<open>ReadingHistory\<close>, which no handler touches,
  are left out.
\<close>

datatype BookState = IS_READING | READ | WANTS_TO_READ

record ImageLinks =
  thumbnail :: string

record VolumeInfo =
  title :: string
  subtitle :: string
  description :: string
  imageLinks :: "ImageLinks option"
  pageCount :: int

record GoogleBook =
  gb_id :: string
  volumeInfo :: VolumeInfo

text \<open>
  \<open>UserModel\<close> is a user as a response carries it, \<open>User\<close> the row of the table:
  the same columns and the password after them, so that \<^verbatim>\<open>delete user.password\<close>
  is the truncation of a \<open>User\<close> to a \<open>UserModel\<close>.
\<close>

record UserModel =
  u_id :: int
  name :: "string option"
  email :: string
  avatar :: "string option"

record User = UserModel +
  password :: string

record AccessTokenPayload =
  scope :: "string list"
  userId :: int

record RefreshResponse =
  accessToken :: string
  refreshToken :: string

record SignUpResponse =
  user :: UserModel

record SignInResponse = SignUpResponse +
  accessToken :: string
  refreshToken :: string

record MyBooks =
  mb_id :: int
  userId :: int
  bookId :: string
  bookState :: BookState
  currentPage :: "int option"
  totalPages :: int
  book :: GoogleBook

text \<open>
  The database: the two tables in insertion order, and the sequences behind the
  \<^verbatim>\<open>autoincrement()\<close> keys (the last value each one gave out).
\<close>

record db =
  users :: "User list"
  userSeq :: int
  myBooks :: "MyBooks list"
  myBooksSeq :: int

text \<open>
  What a handler can throw: the two HTTP exceptions of the framework the controller
  uses, a plain \<^verbatim>\<open>Error\<close>, a failed request to the catalog, and an error of
  the database client.
\<close>

datatype error =
  UnauthorizedException string
  | BadRequestException string
  | Error string
  | AxiosError
  | PrismaError string

text \<open>
  What the caller sees of a thrown error: the framework answers an exception of its
  own with the status of that exception (401 Unauthorized, 400 Bad Request) and
  every other error with 500 Internal Server Error; 404 is the status of Not Found.
\<close>

definition statusCode :: "error \<Rightarrow> nat" where
  "statusCode err =
     (case err of
        UnauthorizedException m \<Rightarrow> 401
      | BadRequestException m \<Rightarrow> 400
      | Error m \<Rightarrow> 500
      | AxiosError \<Rightarrow> 500
      | PrismaError m \<Rightarrow> 500)"

definition NOT_FOUND :: nat where
  "NOT_FOUND = 404"

section \<open>The services behind the controller\<close>

text \<open>
  Modelled from the spec: \<^verbatim>\<open>MyBooksService\<close> (\<^verbatim>\<open>src/my-books.service.ts\<close>), the
  Reading-List Store. It "holds one record per (user, catalog book) pair", and the
  pair is unique "by application-level check, not a storage constraint": \<open>findOne\<close>
  gives the first row of the pair, \<open>updateMyBook\<close> writes the given columns of the
  row with the given key and gives the row back (an error when there is none),
  \<open>createMyBook\<close> appends a row with the next key and no current page, for a user
  that exists (the relation \<^verbatim>\<open>user\<close> of the schema), and gives it back.

  The column \<^verbatim>\<open>currentPage\<close> is an \<^verbatim>\<open>Int\<close> of PostgreSQL, a whole number from
  -2147483648 to 2147483647, and the update is given a \<^verbatim>\<open>number\<close>: \<open>as_Int\<close> is the
  value of the column for a number, \<open>None\<close> for a number the column cannot hold,
  which \<open>updateMyBook\<close> refuses with an error, writing nothing.
\<close>

definition Int_column :: "int \<Rightarrow> bool" where
  "Int_column i = (- 2147483648 \<le> i \<and> i \<le> 2147483647)"

definition as_Int :: "rat \<Rightarrow> int option" where
  "as_Int x = (if of_int \<lfloor>x\<rfloor> = x \<and> Int_column \<lfloor>x\<rfloor> then Some \<lfloor>x\<rfloor> else None)"

definition MyBooksService_findOne :: "db \<Rightarrow> string \<Rightarrow> int \<Rightarrow> MyBooks option" where
  "MyBooksService_findOne d bid uid =
     find (\<lambda>r. bookId r = bid \<and> userId r = uid) (myBooks d)"

record MyBooksUpdateInput =
  set_currentPage :: "rat option"
  set_bookState :: "BookState option"

definition Int_argument :: "rat option \<Rightarrow> int option option" where
  "Int_argument a =
     (case a of
        None \<Rightarrow> Some None
      | Some x \<Rightarrow> (case as_Int x of None \<Rightarrow> None | Some i \<Rightarrow> Some (Some i)))"

definition apply_update :: "int option \<Rightarrow> BookState option \<Rightarrow> MyBooks \<Rightarrow> MyBooks" where
  "apply_update p s r =
     r\<lparr>currentPage := (case p of None \<Rightarrow> currentPage r | Some i \<Rightarrow> Some i),
       bookState := (case s of None \<Rightarrow> bookState r | Some t \<Rightarrow> t)\<rparr>"

definition MyBooksService_updateMyBook ::
  "db \<Rightarrow> int \<Rightarrow> MyBooksUpdateInput \<Rightarrow> (error + MyBooks) \<times> db" where
  "MyBooksService_updateMyBook d key inp =
     (case Int_argument (set_currentPage inp) of
        None \<Rightarrow> (Inl (PrismaError ''Invalid value for argument currentPage: expected Int''), d)
      | Some p \<Rightarrow>
          (case find (\<lambda>r. mb_id r = key) (myBooks d) of
             None \<Rightarrow> (Inl (PrismaError ''Record to update not found''), d)
           | Some r \<Rightarrow>
               (Inr (apply_update p (set_bookState inp) r),
                d\<lparr>myBooks :=
                    map (\<lambda>x. if mb_id x = key then apply_update p (set_bookState inp) x else x)
                      (myBooks d)\<rparr>)))"

definition MyBooksService_createMyBook ::
  "db \<Rightarrow> string \<Rightarrow> int \<Rightarrow> BookState \<Rightarrow> int \<Rightarrow> GoogleBook \<Rightarrow> (error + MyBooks) \<times> db" where
  "MyBooksService_createMyBook d bid pages st uid payload =
     (if \<not> list_ex (\<lambda>u. u_id u = uid) (users d)
      then (Inl (PrismaError ''No User record to connect''), d)
      else
        let r = \<lparr>mb_id = myBooksSeq d + 1, userId = uid, bookId = bid, bookState = st,
                 currentPage = None, totalPages = pages, book = payload\<rparr>
        in (Inr r, d\<lparr>myBooks := myBooks d @ [r], myBooksSeq := myBooksSeq d + 1\<rparr>))"

section \<open>The reading list\<close>

text \<open>
  \<^verbatim>\<open>PUT /books/:id/reading\<close>, \<open>updateBookReading\<close>: \<open>bid\<close> is the parameter
  \<^verbatim>\<open>id\<close> of the route, \<open>page\<close> the field of the body, \<open>uid\<close> the \<^verbatim>\<open>userId\<close> the
  guard put on the request. The body declares \<^verbatim>\<open>page: number\<close> and the handler
  checks nothing about it: the page is any number, compared with the total pages
  as a number and handed to the store as it is.
\<close>

definition updateBookReading :: "db \<Rightarrow> string \<Rightarrow> rat \<Rightarrow> int \<Rightarrow> (error + MyBooks) \<times> db" where
  "updateBookReading d bid page uid =
     (case MyBooksService_findOne d bid uid of
        None \<Rightarrow> (Inl (Error ''Cannot update reading position''), d)
      | Some isBookAlreadyExists \<Rightarrow>
          let isPageGreaterThanTotalPage = (page \<ge> of_int (totalPages isBookAlreadyExists))
          in MyBooksService_updateMyBook d (mb_id isBookAlreadyExists)
               \<lparr>set_currentPage =
                  Some (if isPageGreaterThanTotalPage
                        then of_int (totalPages isBookAlreadyExists) else page),
                set_bookState =
                  Some (if isPageGreaterThanTotalPage then READ else bookState isBookAlreadyExists)\<rparr>)"

text \<open>
  \<^verbatim>\<open>POST /books/my-books\<close>, \<open>addToMyBooks\<close>. \<open>axios_get\<close> is the request to the
  catalog, from the address to the body of the response (\<open>None\<close> when the request
  fails, which the handler does not catch).
\<close>

definition addToMyBooks ::
  "(string \<Rightarrow> GoogleBook option) \<Rightarrow> db \<Rightarrow> int \<Rightarrow> string \<Rightarrow> BookState \<Rightarrow> (error + MyBooks) \<times> db" where
  "addToMyBooks axios_get d uid bid st =
     (case MyBooksService_findOne d bid uid of
        Some isBookAlreadyExists \<Rightarrow>
          MyBooksService_updateMyBook d (mb_id isBookAlreadyExists)
            \<lparr>set_currentPage = None, set_bookState = Some st\<rparr>
      | None \<Rightarrow>
          (case axios_get (''https://www.googleapis.com/books/v1/volumes/'' @ bid) of
             None \<Rightarrow> (Inl AxiosError, d)
           | Some response_data \<Rightarrow>
               MyBooksService_createMyBook d bid (pageCount (volumeInfo response_data)) st uid
                 response_data))"

section \<open>Sessions\<close>

text \<open>
  Modelled from the spec: \<^verbatim>\<open>UserService\<close> (\<^verbatim>\<open>src/user.service.ts\<close>), the Identity
  Store, which "holds user records (id, name, email, password hash) with email
  uniqueness": \<open>findOne\<close> gives the user with the given email or key, \<open>createUser\<close>
  appends a user with the next key, unless the email is taken.
\<close>

datatype UserWhereUniqueInput = where_email string | where_id int

definition UserService_findOne :: "db \<Rightarrow> UserWhereUniqueInput \<Rightarrow> User option" where
  "UserService_findOne d w =
     (case w of
        where_email e \<Rightarrow> find (\<lambda>u. email u = e) (users d)
      | where_id i \<Rightarrow> find (\<lambda>u. u_id u = i) (users d))"

definition UserService_createUser ::
  "db \<Rightarrow> string \<Rightarrow> string \<Rightarrow> string \<Rightarrow> (error + User) \<times> db" where
  "UserService_createUser d n e p =
     (if list_ex (\<lambda>u. email u = e) (users d)
      then (Inl (PrismaError ''Unique constraint failed on the fields: (email)''), d)
      else
        let u = \<lparr>u_id = userSeq d + 1, name = Some n, email = e, avatar = None, password = p\<rparr>
        in (Inr u, d\<lparr>users := users d @ [u], userSeq := userSeq d + 1\<rparr>))"

text \<open>
  The two libraries the controller calls are parameters of its handlers:
  \<^verbatim>\<open>bcrypt\<close> (\<open>hash\<close> of a password with a number of salt rounds, \<open>compare\<close> of a
  password with a hash) and the \<^verbatim>\<open>JwtService\<close> (\<open>sign\<close> of a payload with an
  \<^verbatim>\<open>expiresIn\<close>, \<open>verifyAsync\<close> of a token, \<open>None\<close> when it throws; the token it
  is given may be \<^verbatim>\<open>undefined\<close>).
\<close>

record bcrypt =
  hash :: "string \<Rightarrow> nat \<Rightarrow> string"
  compare :: "string \<Rightarrow> string \<Rightarrow> bool"

record JwtService =
  sign :: "AccessTokenPayload \<Rightarrow> string \<Rightarrow> string"
  verifyAsync :: "string option \<Rightarrow> AccessTokenPayload option"

text \<open>\<^verbatim>\<open>POST /user/signin\<close>.\<close>

definition signin ::
  "bcrypt \<Rightarrow> JwtService \<Rightarrow> db \<Rightarrow> string \<Rightarrow> string \<Rightarrow> (error + SignInResponse) \<times> db" where
  "signin bc jwtService d e p =
     (case UserService_findOne d (where_email e) of
        None \<Rightarrow> (Inl (UnauthorizedException ''Invalid credentials''), d)
      | Some u \<Rightarrow>
          let isSamePassword = compare bc p (password u)
          in if \<not> isSamePassword then (Inl (UnauthorizedException ''Invalid credentials''), d)
             else
               let refreshToken' =
                     sign jwtService
                       \<lparr>scope = [''refreshToken''], AccessTokenPayload.userId = u_id u\<rparr> ''3 hours'';
                   accessToken' =
                     sign jwtService
                       \<lparr>scope = [''accessToken''], AccessTokenPayload.userId = u_id u\<rparr> ''1 hour''
               in (Inr \<lparr>user = UserModel.truncate u, accessToken = accessToken',
                        refreshToken = refreshToken'\<rparr>, d))"

text \<open>\<^verbatim>\<open>POST /user/signup\<close>.\<close>

definition signup ::
  "bcrypt \<Rightarrow> db \<Rightarrow> string \<Rightarrow> string \<Rightarrow> string \<Rightarrow> (error + SignUpResponse) \<times> db" where
  "signup bc d n e p =
     (case UserService_findOne d (where_email e) of
        Some userAlreadyExists \<Rightarrow> (Inl (BadRequestException ''User already exists''), d)
      | None \<Rightarrow>
          let saltOrRounds = 10;
              hashPassword = hash bc p saltOrRounds
          in (case UserService_createUser d n e hashPassword of
                (Inl err, d') \<Rightarrow> (Inl err, d')
              | (Inr u, d') \<Rightarrow> (Inr \<lparr>user = UserModel.truncate u\<rparr>, d')))"

text \<open>
  \<^verbatim>\<open>POST /user/refresh\<close>. \<open>split\<close> is \<^verbatim>\<open>String.prototype.split\<close> with a separator
  of one character, \<open>at\<close> the element of an array at an index (\<^verbatim>\<open>undefined\<close> past
  its end), \<open>indexOf\<close> the first index of an element of an array, or \<open>-1\<close>.
  Everything from \<open>verifyAsync\<close> on is inside the \<^verbatim>\<open>try\<close>, whose \<^verbatim>\<open>catch\<close>
  throws the exception of the handler.
\<close>

fun split :: "char \<Rightarrow> string \<Rightarrow> string list" where
  "split c [] = [[]]"
| "split c (x # xs) =
     (if x = c then [] # split c xs
      else (case split c xs of w # ws \<Rightarrow> (x # w) # ws | [] \<Rightarrow> [[x]]))"

fun at :: "'a list \<Rightarrow> nat \<Rightarrow> 'a option" where
  "at [] i = None"
| "at (x # xs) 0 = Some x"
| "at (x # xs) (Suc i) = at xs i"

fun indexOf :: "'a list \<Rightarrow> 'a \<Rightarrow> int" where
  "indexOf [] y = -1"
| "indexOf (x # xs) y =
     (if x = y then 0 else (let i = indexOf xs y in if i = -1 then -1 else i + 1))"

definition refresh :: "JwtService \<Rightarrow> db \<Rightarrow> string \<Rightarrow> (error + RefreshResponse) \<times> db" where
  "refresh jwtService d authorization =
     (let token = at (split CHR '' '' authorization) 1
      in case verifyAsync jwtService token of
           None \<Rightarrow> (Inl (UnauthorizedException ''Cannot refresh session''), d)
         | Some payload \<Rightarrow>
             if indexOf (scope payload) ''refreshToken'' = -1
             then (Inl (UnauthorizedException ''Cannot refresh session''), d)
             else
               (case UserService_findOne d (where_id (AccessTokenPayload.userId payload)) of
                  None \<Rightarrow> (Inl (UnauthorizedException ''Cannot refresh session''), d)
                | Some u \<Rightarrow>
                    let refreshToken' =
                          sign jwtService
                            \<lparr>scope = [''refreshToken''], AccessTokenPayload.userId = u_id u\<rparr>
                            ''1 minute'';
                        accessToken' =
                          sign jwtService
                            \<lparr>scope = [''accessToken''], AccessTokenPayload.userId = u_id u\<rparr>
                            ''30 second''
                    in (Inr \<lparr>RefreshResponse.accessToken = accessToken',
                             RefreshResponse.refreshToken = refreshToken'\<rparr>, d)))"

text \<open>
  The \<^verbatim>\<open>expiresIn\<close> of a token is a string the token library reads as a time span:
  a number, a space and a unit. \<open>ms\<close> gives the milliseconds of such a string,
  \<open>expiresIn_seconds\<close> the lifetime of the token, in seconds, and \<open>shorter a b\<close> says
  that both strings are time spans and the first is the shorter one.
\<close>

definition digit :: "char \<Rightarrow> nat option" where
  "digit c =
     map_of [(CHR ''0'', 0), (CHR ''1'', 1), (CHR ''2'', 2), (CHR ''3'', 3), (CHR ''4'', 4),
             (CHR ''5'', 5), (CHR ''6'', 6), (CHR ''7'', 7), (CHR ''8'', 8), (CHR ''9'', 9)] c"

fun number :: "nat \<Rightarrow> string \<Rightarrow> nat option" where
  "number acc [] = Some acc"
| "number acc (c # cs) =
     (case digit c of None \<Rightarrow> None | Some k \<Rightarrow> number (10 * acc + k) cs)"

definition unit_ms :: "string \<Rightarrow> nat option" where
  "unit_ms = map_of
     [(''milliseconds'', 1), (''millisecond'', 1), (''msecs'', 1), (''msec'', 1), (''ms'', 1),
      (''seconds'', 1000), (''second'', 1000), (''secs'', 1000), (''sec'', 1000), (''s'', 1000),
      (''minutes'', 60000), (''minute'', 60000), (''mins'', 60000), (''min'', 60000),
      (''m'', 60000),
      (''hours'', 3600000), (''hour'', 3600000), (''hrs'', 3600000), (''hr'', 3600000),
      (''h'', 3600000),
      (''days'', 86400000), (''day'', 86400000), (''d'', 86400000),
      (''weeks'', 604800000), (''week'', 604800000), (''w'', 604800000)]"

definition ms :: "string \<Rightarrow> nat option" where
  "ms s =
     (case split CHR '' '' s of
        [n, u] \<Rightarrow>
          (if n = [] then None
           else (case (number 0 n, unit_ms u) of
                   (Some k, Some m) \<Rightarrow> Some (k * m)
                 | _ \<Rightarrow> None))
      | _ \<Rightarrow> None)"

definition expiresIn_seconds :: "string \<Rightarrow> nat option" where
  "expiresIn_seconds s = map_option (\<lambda>m. m div 1000) (ms s)"

definition shorter :: "string \<Rightarrow> string \<Rightarrow> bool" where
  "shorter a b =
     (case (expiresIn_seconds a, expiresIn_seconds b) of
        (Some x, Some y) \<Rightarrow> x < y
      | _ \<Rightarrow> False)"

section \<open>A store to run the handlers on\<close>

text \<open>
  Two users; the first has the book \<open>B1\<close> of 300 pages on the list and wants to read
  it, the second is reading the same book at page 10.
\<close>

definition B1 :: GoogleBook where
  "B1 = \<lparr>gb_id = ''B1'',
          volumeInfo = \<lparr>title = ''Title'', subtitle = ''Subtitle'', description = ''Text'',
                         imageLinks = None, pageCount = 300\<rparr>\<rparr>"

definition B2 :: GoogleBook where
  "B2 = \<lparr>gb_id = ''B2'',
          volumeInfo = \<lparr>title = ''Other'', subtitle = '''', description = '''',
                         imageLinks = Some \<lparr>thumbnail = ''http://t''\<rparr>, pageCount = 120\<rparr>\<rparr>"

definition ann :: User where
  "ann = \<lparr>u_id = 1, name = Some ''Ann'', email = ''ann@x.org'', avatar = None,
           password = ''$2b$10$hashA''\<rparr>"

definition bob :: User where
  "bob = \<lparr>u_id = 2, name = None, email = ''bob@x.org'', avatar = None,
           password = ''$2b$10$hashB''\<rparr>"

definition entry1 :: MyBooks where
  "entry1 = \<lparr>mb_id = 1, userId = 1, bookId = ''B1'', bookState = WANTS_TO_READ,
              currentPage = None, totalPages = 300, book = B1\<rparr>"

definition entry2 :: MyBooks where
  "entry2 = \<lparr>mb_id = 2, userId = 2, bookId = ''B1'', bookState = IS_READING,
              currentPage = Some 10, totalPages = 300, book = B1\<rparr>"

definition db0 :: db where
  "db0 = \<lparr>users = [ann, bob], userSeq = 2, myBooks = [entry1, entry2], myBooksSeq = 2\<rparr>"

definition catalog :: "string \<Rightarrow> GoogleBook option" where
  "catalog url =
     (if url = ''https://www.googleapis.com/books/v1/volumes/B1'' then Some B1
      else if url = ''https://www.googleapis.com/books/v1/volumes/B2'' then Some B2
      else None)"

text \<open>
  A token service for the runs: a token is the letter of its kind, the digit of its
  user and its lifetime without the space, and verifies when it is one of the tokens
  below.
\<close>

definition jwt0 :: JwtService where
  "jwt0 = \<lparr>sign = (\<lambda>p e. (if scope p = [''refreshToken''] then ''R'' else ''A'')
                          @ (if AccessTokenPayload.userId p = 1 then ''1''
                             else if AccessTokenPayload.userId p = 2 then ''2'' else ''9'')
                          @ '':'' @ filter (\<lambda>c. c \<noteq> CHR '' '') e),
            verifyAsync = (\<lambda>t.
              if t = Some ''R1:3hours'' \<or> t = Some ''R1:1minute''
              then Some \<lparr>scope = [''refreshToken''], AccessTokenPayload.userId = 1\<rparr>
              else if t = Some ''A1:1hour'' \<or> t = Some ''A1:30second''
              then Some \<lparr>scope = [''accessToken''], AccessTokenPayload.userId = 1\<rparr>
              else if t = Some ''R9:3hours''
              then Some \<lparr>scope = [''refreshToken''], AccessTokenPayload.userId = 9\<rparr>
              else None)\<rparr>"

definition bcrypt0 :: bcrypt where
  "bcrypt0 = \<lparr>hash = (\<lambda>p rounds. ''$2b$10$hash'' @ p),
               compare = (\<lambda>p h. h = ''$2b$10$hash'' @ p)\<rparr>"

text \<open>
  The store before any request, and the store after \<open>Ann\<close> has signed up and put
  the book \<open>B1\<close> on her list.
\<close>

definition empty_db :: db where
  "empty_db = \<lparr>users = [], userSeq = 0, myBooks = [], myBooksSeq = 0\<rparr>"

definition db1 :: db where
  "db1 = snd (addToMyBooks catalog (snd (signup bcrypt0 empty_db ''Ann'' ''ann@x.org'' ''A''))
            1 ''B1'' WANTS_TO_READ)"

section \<open>Properties of the store\<close>

text \<open>
  The invariant of the data model, "0 <= currentPage <= totalPages once set", and
  its upper half; the number of positions at which two tables differ; the rows of
  a table that belong to other pairs than a given one.
\<close>

definition page_invariant :: "MyBooks \<Rightarrow> bool" where
  "page_invariant r =
     (case currentPage r of None \<Rightarrow> True | Some p \<Rightarrow> 0 \<le> p \<and> p \<le> totalPages r)"

definition page_bounded :: "MyBooks \<Rightarrow> bool" where
  "page_bounded r = (case currentPage r of None \<Rightarrow> True | Some p \<Rightarrow> p \<le> totalPages r)"

definition changed :: "'a list \<Rightarrow> 'a list \<Rightarrow> nat" where
  "changed xs ys = length (filter (\<lambda>(x, y). x \<noteq> y) (zip xs ys))"

definition other_pairs :: "string \<Rightarrow> int \<Rightarrow> MyBooks list \<Rightarrow> MyBooks list" where
  "other_pairs bid uid rs = filter (\<lambda>r. \<not> (bookId r = bid \<and> userId r = uid)) rs"

text \<open>
  \<open>frame bid uid d d'\<close>: from the store \<open>d\<close> to the store \<open>d'\<close> the users and their
  sequence are the same, the rows of every pair other than \<open>(uid, bid)\<close> are the
  same, in the same order, at most one row of \<open>d\<close> differs, and at most one row was
  added. \<open>keys_ok\<close>: the keys are distinct and the sequence is not behind them.
\<close>

definition frame :: "string \<Rightarrow> int \<Rightarrow> db \<Rightarrow> db \<Rightarrow> bool" where
  "frame bid uid d d' =
     (users d' = users d \<and> userSeq d' = userSeq d
      \<and> other_pairs bid uid (myBooks d') = other_pairs bid uid (myBooks d)
      \<and> changed (myBooks d) (myBooks d') \<le> 1
      \<and> length (myBooks d) \<le> length (myBooks d')
      \<and> length (myBooks d') \<le> length (myBooks d) + 1)"

definition keys_ok :: "db \<Rightarrow> bool" where
  "keys_ok d =
     (distinct (map mb_id (myBooks d)) \<and> list_all (\<lambda>r. mb_id r \<le> myBooksSeq d) (myBooks d))"

text \<open>
  The stores the handlers can make: the empty store, and what the three handlers
  that write leave behind, whatever they are called with and whether they succeed
  or fail (\<open>signin\<close> and \<open>refresh\<close> write nothing).
\<close>

inductive reachable :: "db \<Rightarrow> bool" where
  reachable_empty: "reachable empty_db"
| reachable_signup: "reachable d \<Longrightarrow> reachable (snd (signup bc d n e p))"
| reachable_addToMyBooks:
    "reachable d \<Longrightarrow> reachable (snd (addToMyBooks axios_get d uid bid st))"
| reachable_updateBookReading:
    "reachable d \<Longrightarrow> reachable (snd (updateBookReading d bid page uid))"

section \<open>Rows, keys and pairs\<close>

text \<open>
  \<open>mb_id\<close> is the primary key of the table (\<^verbatim>\<open>@id\<close> in the schema): no two rows
  share it. Under this condition the row a handler found by its pair is the row the
  update by key writes, and the only one.
\<close>

lemma find_id_of_found:
  assumes "distinct (map mb_id rs)" and "find P rs = Some e"
  shows "find (\<lambda>r. mb_id r = mb_id e) rs = Some e"
  using assms
proof (induction rs)
  case Nil
  then show ?case by simp
next
  case (Cons r rs)
  show ?case
  proof (cases "P r")
    case True
    with Cons.prems show ?thesis by simp
  next
    case False
    with Cons.prems have found: "find P rs = Some e" and d: "distinct (map mb_id rs)"
      and fresh: "mb_id r \<notin> mb_id ` set rs"
      by simp_all
    from found have "e \<in> set rs"
      by (auto simp: find_Some_iff)
    with fresh have "mb_id r \<noteq> mb_id e" by auto
    with Cons.IH [OF d found] show ?thesis by simp
  qed
qed

lemma map_key_eq:
  assumes "distinct (map mb_id rs)" and "e \<in> set rs"
  shows "map (\<lambda>x. if mb_id x = mb_id e then f x else x) rs =
         map (\<lambda>x. if x = e then f e else x) rs"
proof (rule map_cong)
  fix x assume "x \<in> set rs"
  with assms have "mb_id x = mb_id e \<longleftrightarrow> x = e"
    by (auto simp: distinct_map dest: inj_onD)
  then show "(if mb_id x = mb_id e then f x else x) = (if x = e then f e else x)"
    by auto
qed simp

lemma as_Int_Some:
  assumes "as_Int x = Some p"
  shows "of_int p = x \<and> Int_column p"
  using assms by (auto simp: as_Int_def split: if_splits)


lemma updateMyBook_found:
  assumes "distinct (map mb_id (myBooks d))" and "find P (myBooks d) = Some e"
    and "Int_argument (set_currentPage inp) = Some p"
  shows "MyBooksService_updateMyBook d (mb_id e) inp =
    (Inr (apply_update p (set_bookState inp) e),
     d\<lparr>myBooks :=
         map (\<lambda>x. if x = e then apply_update p (set_bookState inp) e else x) (myBooks d)\<rparr>)"
proof -
  from assms(2) have mem: "e \<in> set (myBooks d)"
    by (auto simp: find_Some_iff)
  have "find (\<lambda>r. mb_id r = mb_id e) (myBooks d) = Some e"
    using assms(1,2) by (rule find_id_of_found)
  then show ?thesis
    by (simp add: MyBooksService_updateMyBook_def assms(3) map_key_eq [OF assms(1) mem])
qed

lemma updateMyBook_refused:
  assumes "Int_argument (set_currentPage inp) = None"
  shows "MyBooksService_updateMyBook d key inp =
    (Inl (PrismaError ''Invalid value for argument currentPage: expected Int''), d)"
  using assms by (simp add: MyBooksService_updateMyBook_def)

lemma find_replaced:
  assumes "find P rs = Some e" and "P e'"
  shows "find P (map (\<lambda>x. if x = e then e' else x) rs) = Some e'"
  using assms by (induction rs) (auto split: if_splits)

lemma findOne_pair:
  assumes "MyBooksService_findOne d bid uid = Some e"
  shows "bookId e = bid \<and> userId e = uid \<and> e \<in> set (myBooks d)"
  using assms by (auto simp: MyBooksService_findOne_def find_Some_iff)

lemma changed_same: "changed rs rs = 0"
  by (induction rs) (simp_all add: changed_def)

lemma changed_append: "changed rs (rs @ ys) = 0"
  by (induction rs) (simp_all add: changed_def)

lemma changed_replace:
  assumes "distinct rs"
  shows "changed rs (map (\<lambda>x. if x = e then e' else x) rs) \<le> 1"
  using assms
proof (induction rs)
  case Nil
  then show ?case by (simp add: changed_def)
next
  case (Cons r rs)
  show ?case
  proof (cases "r = e")
    case True
    with Cons.prems have "e \<notin> set rs" by simp
    then have "map (\<lambda>x. if x = e then e' else x) rs = rs"
      by (induction rs) auto
    with True show ?thesis
      using changed_same [of rs] by (simp add: changed_def)
  next
    case False
    with Cons show ?thesis by (simp add: changed_def)
  qed
qed

lemma other_pairs_replace:
  assumes "bookId e = bid \<and> userId e = uid" and "bookId e' = bid \<and> userId e' = uid"
  shows "other_pairs bid uid (map (\<lambda>x. if x = e then e' else x) rs) = other_pairs bid uid rs"
  using assms by (induction rs) (auto simp: other_pairs_def)

lemma distinct_rows: "distinct (map mb_id rs) \<Longrightarrow> distinct rs"
  by (simp add: distinct_map)

lemma db0_keys: "distinct (map mb_id (myBooks db0))"
  by (simp add: db0_def entry1_def entry2_def)

lemma db0_findOne_B1_1: "MyBooksService_findOne db0 ''B1'' 1 = Some entry1"
  by (simp add: MyBooksService_findOne_def db0_def entry1_def entry2_def)

section \<open>Recording progress\<close>

text \<open>
  What \<open>updateBookReading\<close> returns and stores for an entry that exists: the store
  takes the number the handler hands it, or refuses it.
\<close>

lemma updateBookReading_found:
  assumes "distinct (map mb_id (myBooks d))" and "MyBooksService_findOne d bid uid = Some e"
    and "as_Int (if page \<ge> of_int (totalPages e) then of_int (totalPages e) else page) = Some p"
  shows "updateBookReading d bid page uid =
    (Inr (e\<lparr>currentPage := Some p,
            bookState := (if page \<ge> of_int (totalPages e) then READ else bookState e)\<rparr>),
     d\<lparr>myBooks := map (\<lambda>x. if x = e
            then e\<lparr>currentPage := Some p,
                   bookState := (if page \<ge> of_int (totalPages e) then READ else bookState e)\<rparr>
            else x) (myBooks d)\<rparr>)"
proof -
  from assms(2) have f: "find (\<lambda>r. bookId r = bid \<and> userId r = uid) (myBooks d) = Some e"
    by (simp add: MyBooksService_findOne_def)
  let ?inp = "\<lparr>set_currentPage =
        Some (if page \<ge> of_int (totalPages e) then of_int (totalPages e) else page),
      set_bookState = Some (if page \<ge> of_int (totalPages e) then READ else bookState e)\<rparr>"
  from assms(3) have arg: "Int_argument (set_currentPage ?inp) = Some (Some p)"
    by (simp add: Int_argument_def)
  show ?thesis
    using updateMyBook_found [OF assms(1) f arg]
    by (simp add: updateBookReading_def assms(2) apply_update_def Let_def)
qed

lemma updateBookReading_refused:
  assumes "MyBooksService_findOne d bid uid = Some e"
    and "as_Int (if page \<ge> of_int (totalPages e) then of_int (totalPages e) else page) = None"
  shows "updateBookReading d bid page uid =
    (Inl (PrismaError ''Invalid value for argument currentPage: expected Int''), d)"
proof -
  let ?inp = "\<lparr>set_currentPage =
        Some (if page \<ge> of_int (totalPages e) then of_int (totalPages e) else page),
      set_bookState = Some (if page \<ge> of_int (totalPages e) then READ else bookState e)\<rparr>"
  from assms(2) have arg: "Int_argument (set_currentPage ?inp) = None"
    by (simp add: Int_argument_def)
  show ?thesis
    using updateMyBook_refused [OF arg, of d "mb_id e"]
    by (simp add: updateBookReading_def assms(1) Let_def)
qed

lemma updateBookReading_stored:
  assumes "MyBooksService_findOne d bid uid = Some e"
  shows "MyBooksService_findOne
           (d\<lparr>myBooks := map (\<lambda>x. if x = e then e\<lparr>currentPage := c, bookState := s\<rparr> else x)
              (myBooks d)\<rparr>) bid uid =
         Some (e\<lparr>currentPage := c, bookState := s\<rparr>)"
proof -
  from assms have f: "find (\<lambda>r. bookId r = bid \<and> userId r = uid) (myBooks d) = Some e"
    by (simp add: MyBooksService_findOne_def)
  have pair: "bookId (e\<lparr>currentPage := c, bookState := s\<rparr>) = bid
      \<and> userId (e\<lparr>currentPage := c, bookState := s\<rparr>) = uid"
    using findOne_pair [OF assms] by simp
  show ?thesis
    unfolding MyBooksService_findOne_def
    using find_replaced [OF f, of "e\<lparr>currentPage := c, bookState := s\<rparr>"] pair by simp
qed





text \<open>
  C3, as stated, fails: the first user of \<open>db0\<close> has no entry for \<open>B9\<close>, and what
  \<open>updateBookReading\<close> throws is a plain \<^verbatim>\<open>Error\<close>, which the caller sees as 500
  Internal Server Error, not as Not Found.
\<close>

theorem updateBookReading_missing_counterexample:
  "MyBooksService_findOne db0 ''B9'' 1 = None
   \<and> fst (updateBookReading db0 ''B9'' 5 1) = Inl (Error ''Cannot update reading position'')
   \<and> statusCode (Error ''Cannot update reading position'') = 500
   \<and> statusCode (Error ''Cannot update reading position'') \<noteq> NOT_FOUND"
  by (simp add: updateBookReading_def MyBooksService_findOne_def db0_def entry1_def entry2_def
      statusCode_def NOT_FOUND_def)

text \<open>
  C3, amended. For a pair with no entry, \<open>updateBookReading\<close> throws the plain
  \<^verbatim>\<open>Error\<close> of the handler and leaves the store as it was: no entry is created or
  modified. It throws this error for no other reason, and the caller sees it as 500
  Internal Server Error: no error of the handlers is seen as Not Found.
\<close>

theorem updateBookReading_missing:
  "(MyBooksService_findOne d bid uid = None \<longrightarrow>
      updateBookReading d bid page uid = (Inl (Error ''Cannot update reading position''), d))
   \<and> (fst (updateBookReading d bid page uid) = Inl (Error ''Cannot update reading position'') \<longrightarrow>
      MyBooksService_findOne d bid uid = None)
   \<and> statusCode (Error ''Cannot update reading position'') = 500
   \<and> statusCode err \<noteq> NOT_FOUND"
proof (intro conjI impI)
  assume "MyBooksService_findOne d bid uid = None"
  then show "updateBookReading d bid page uid =
      (Inl (Error ''Cannot update reading position''), d)"
    by (simp add: updateBookReading_def)
next
  assume "fst (updateBookReading d bid page uid) = Inl (Error ''Cannot update reading position'')"
  then show "MyBooksService_findOne d bid uid = None"
    by (auto simp: updateBookReading_def MyBooksService_updateMyBook_def Let_def
        split: option.splits)
next
  show "statusCode (Error ''Cannot update reading position'') = 500"
    by (simp add: statusCode_def)
next
  show "statusCode err \<noteq> NOT_FOUND"
    by (cases err) (simp_all add: statusCode_def NOT_FOUND_def)
qed

theorem updateBookReading_missing_witness:
  "MyBooksService_findOne db0 ''B9'' 1 = None
   \<and> updateBookReading db0 ''B9'' 5 1 = (Inl (Error ''Cannot update reading position''), db0)
   \<and> MyBooksService_findOne db0 ''B1'' 1 \<noteq> None
   \<and> fst (updateBookReading db0 ''B1'' 5 1) \<noteq> Inl (Error ''Cannot update reading position'')"
proof -
  have none: "MyBooksService_findOne db0 ''B9'' 1 = None"
    by (simp add: MyBooksService_findOne_def db0_def entry1_def entry2_def)
  have some: "MyBooksService_findOne db0 ''B1'' 1 \<noteq> None"
    by (simp add: db0_findOne_B1_1)
  from none some
    updateBookReading_missing [of db0 "''B9''" 1 5 "Error ''x''"]
    updateBookReading_missing [of db0 "''B1''" 1 5 "Error ''x''"]
  show ?thesis by auto
qed

section \<open>Adding a book\<close>

text \<open>What \<open>addToMyBooks\<close> returns and stores, and the shape of the store after either handler.\<close>

lemma addToMyBooks_found:
  assumes "distinct (map mb_id (myBooks d))" and "MyBooksService_findOne d bid uid = Some e"
  shows "addToMyBooks axios_get d uid bid st =
    (Inr (e\<lparr>bookState := st\<rparr>),
     d\<lparr>myBooks := map (\<lambda>x. if x = e then e\<lparr>bookState := st\<rparr> else x) (myBooks d)\<rparr>)"
proof -
  from assms(2) have f: "find (\<lambda>r. bookId r = bid \<and> userId r = uid) (myBooks d) = Some e"
    by (simp add: MyBooksService_findOne_def)
  show ?thesis
    using updateMyBook_found
        [OF assms(1) f, of "\<lparr>set_currentPage = None, set_bookState = Some st\<rparr>" None]
    by (simp add: addToMyBooks_def assms(2) Int_argument_def apply_update_def)
qed

lemma addToMyBooks_new:
  assumes "MyBooksService_findOne d bid uid = None"
    and "axios_get (''https://www.googleapis.com/books/v1/volumes/'' @ bid) = Some response_data"
    and "list_ex (\<lambda>u. u_id u = uid) (users d)"
  shows "addToMyBooks axios_get d uid bid st =
    (Inr \<lparr>mb_id = myBooksSeq d + 1, userId = uid, bookId = bid, bookState = st,
          currentPage = None, totalPages = pageCount (volumeInfo response_data),
          book = response_data\<rparr>,
     d\<lparr>myBooks := myBooks d @
          [\<lparr>mb_id = myBooksSeq d + 1, userId = uid, bookId = bid, bookState = st,
            currentPage = None, totalPages = pageCount (volumeInfo response_data),
            book = response_data\<rparr>],
       myBooksSeq := myBooksSeq d + 1\<rparr>)"
  using assms by (simp add: addToMyBooks_def MyBooksService_createMyBook_def Let_def)

lemma updateBookReading_shape:
  assumes "distinct (map mb_id (myBooks d))"
  shows "snd (updateBookReading d bid page uid) = d
    \<or> (\<exists>e e'. MyBooksService_findOne d bid uid = Some e
          \<and> bookId e' = bid \<and> userId e' = uid \<and> mb_id e' = mb_id e
          \<and> snd (updateBookReading d bid page uid) =
              d\<lparr>myBooks := map (\<lambda>x. if x = e then e' else x) (myBooks d)\<rparr>)"
proof (cases "MyBooksService_findOne d bid uid")
  case None
  then show ?thesis by (simp add: updateBookReading_def)
next
  case (Some e)
  show ?thesis
  proof (cases "as_Int (if page \<ge> of_int (totalPages e) then of_int (totalPages e) else page)")
    case None
    from updateBookReading_refused [OF Some None] show ?thesis by simp
  next
    case (Some p)
    note found = \<open>MyBooksService_findOne d bid uid = Some e\<close>
    let ?e' = "e\<lparr>currentPage := Some p,
            bookState := (if page \<ge> of_int (totalPages e) then READ else bookState e)\<rparr>"
    have "bookId ?e' = bid \<and> userId ?e' = uid \<and> mb_id ?e' = mb_id e"
      using findOne_pair [OF found] by simp
    moreover have "snd (updateBookReading d bid page uid) =
        d\<lparr>myBooks := map (\<lambda>x. if x = e then ?e' else x) (myBooks d)\<rparr>"
      by (simp add: updateBookReading_found [OF assms found Some])
    ultimately show ?thesis using found by blast
  qed
qed

lemma addToMyBooks_shape:
  assumes "distinct (map mb_id (myBooks d))"
  shows "snd (addToMyBooks axios_get d uid bid st) = d
    \<or> (\<exists>e e'. MyBooksService_findOne d bid uid = Some e
          \<and> bookId e' = bid \<and> userId e' = uid \<and> mb_id e' = mb_id e
          \<and> snd (addToMyBooks axios_get d uid bid st) =
              d\<lparr>myBooks := map (\<lambda>x. if x = e then e' else x) (myBooks d)\<rparr>)
    \<or> (\<exists>n. bookId n = bid \<and> userId n = uid \<and> mb_id n = myBooksSeq d + 1
          \<and> snd (addToMyBooks axios_get d uid bid st) =
              d\<lparr>myBooks := myBooks d @ [n], myBooksSeq := myBooksSeq d + 1\<rparr>)"
proof (cases "MyBooksService_findOne d bid uid")
  case (Some e)
  have "bookId (e\<lparr>bookState := st\<rparr>) = bid \<and> userId (e\<lparr>bookState := st\<rparr>) = uid
      \<and> mb_id (e\<lparr>bookState := st\<rparr>) = mb_id e"
    using findOne_pair [OF Some] by simp
  moreover have "snd (addToMyBooks axios_get d uid bid st) =
      d\<lparr>myBooks := map (\<lambda>x. if x = e then e\<lparr>bookState := st\<rparr> else x) (myBooks d)\<rparr>"
    by (simp add: addToMyBooks_found [OF assms Some])
  ultimately show ?thesis using Some by blast
next
  case None
  note noEntry = this
  show ?thesis
  proof (cases "axios_get (''https://www.googleapis.com/books/v1/volumes/'' @ bid)")
    case None
    with noEntry show ?thesis
      by (simp add: addToMyBooks_def)
  next
    case (Some response_data)
    show ?thesis
    proof (cases "list_ex (\<lambda>u. u_id u = uid) (users d)")
      case True
      let ?n = "\<lparr>mb_id = myBooksSeq d + 1, userId = uid, bookId = bid, bookState = st,
          currentPage = None, totalPages = pageCount (volumeInfo response_data),
          book = response_data\<rparr>"
      have "addToMyBooks axios_get d uid bid st =
        (Inr ?n, d\<lparr>myBooks := myBooks d @ [?n], myBooksSeq := myBooksSeq d + 1\<rparr>)"
        using noEntry Some True by (rule addToMyBooks_new)
      then have "bookId ?n = bid \<and> userId ?n = uid \<and> mb_id ?n = myBooksSeq d + 1
          \<and> snd (addToMyBooks axios_get d uid bid st) =
              d\<lparr>myBooks := myBooks d @ [?n], myBooksSeq := myBooksSeq d + 1\<rparr>"
        by simp
      then show ?thesis by blast
    next
      case False
      with noEntry Some show ?thesis
        by (simp add: addToMyBooks_def MyBooksService_createMyBook_def)
    qed
  qed
qed

section \<open>Bounds on the current page\<close>

lemma list_all_replace:
  assumes "list_all Q rs" and "Q e'"
  shows "list_all Q (map (\<lambda>x. if x = e then e' else x) rs)"
  using assms by (induction rs) auto

text \<open>
  C2, as stated, fails: the store \<open>db0\<close> satisfies the invariant, and after the
  first user reports page \<open>-5\<close> of the book \<open>B1\<close> the entry has the current page
  \<open>-5\<close>, below \<open>0\<close>. The handler compares the page with the total pages only.
\<close>

theorem page_invariant_counterexample:
  "list_all page_invariant (myBooks db0)
   \<and> distinct (map mb_id (myBooks db0))
   \<and> fst (updateBookReading db0 ''B1'' (-5) 1) =
       Inr (entry1\<lparr>currentPage := Some (-5)\<rparr>)
   \<and> \<not> list_all page_invariant (myBooks (snd (updateBookReading db0 ''B1'' (-5) 1)))"
  by (simp add: updateBookReading_def MyBooksService_findOne_def MyBooksService_updateMyBook_def
      Int_argument_def as_Int_def Int_column_def apply_update_def db0_def entry1_def entry2_def
      page_invariant_def)

lemma page_invariant_state [simp]: "page_invariant (r\<lparr>bookState := s\<rparr>) = page_invariant r"
  by (simp add: page_invariant_def split: option.split)

lemma page_bounded_state [simp]: "page_bounded (r\<lparr>bookState := s\<rparr>) = page_bounded r"
  by (simp add: page_bounded_def split: option.split)

lemma page_invariant_set [simp]:
  "page_invariant (r\<lparr>currentPage := Some p\<rparr>) = (0 \<le> p \<and> p \<le> totalPages r)"
  by (simp add: page_invariant_def)

lemma page_bounded_set [simp]:
  "page_bounded (r\<lparr>currentPage := Some p\<rparr>) = (p \<le> totalPages r)"
  by (simp add: page_bounded_def)

lemma page_invariant_new: "currentPage n = None \<Longrightarrow> page_invariant n"
  by (simp add: page_invariant_def)

lemma page_bounded_new: "currentPage n = None \<Longrightarrow> page_bounded n"
  by (simp add: page_bounded_def)

lemma addToMyBooks_unchanged:
  assumes "MyBooksService_findOne d bid uid = None"
    and "axios_get (''https://www.googleapis.com/books/v1/volumes/'' @ bid) = None
         \<or> \<not> list_ex (\<lambda>u. u_id u = uid) (users d)"
  shows "snd (addToMyBooks axios_get d uid bid st) = d"
  using assms
  by (auto simp: addToMyBooks_def MyBooksService_createMyBook_def split: option.splits)

lemma addToMyBooks_preserves:
  assumes keys: "distinct (map mb_id (myBooks d))"
    and inv: "list_all Q (myBooks d)"
    and state: "\<And>r s. Q r \<Longrightarrow> Q (r\<lparr>bookState := s\<rparr>)"
    and new: "\<And>n. currentPage n = None \<Longrightarrow> Q n"
  shows "list_all Q (myBooks (snd (addToMyBooks axios_get d uid bid st)))"
proof (cases "MyBooksService_findOne d bid uid")
  case (Some e)
  from findOne_pair [OF Some] inv have "Q e"
    by (simp add: list_all_iff)
  then have "Q (e\<lparr>bookState := st\<rparr>)" by (rule state)
  with inv show ?thesis
    by (simp add: addToMyBooks_found [OF keys Some] list_all_replace)
next
  case None
  note noEntry = this
  show ?thesis
  proof (cases "axios_get (''https://www.googleapis.com/books/v1/volumes/'' @ bid) = None
         \<or> \<not> list_ex (\<lambda>u. u_id u = uid) (users d)")
    case True
    with noEntry have "snd (addToMyBooks axios_get d uid bid st) = d"
      by (rule addToMyBooks_unchanged)
    with inv show ?thesis by simp
  next
    case False
    then obtain response_data where
      got: "axios_get (''https://www.googleapis.com/books/v1/volumes/'' @ bid) = Some response_data"
      and known: "list_ex (\<lambda>u. u_id u = uid) (users d)"
      by auto
    have "currentPage \<lparr>mb_id = myBooksSeq d + 1, userId = uid, bookId = bid, bookState = st,
          currentPage = None, totalPages = pageCount (volumeInfo response_data),
          book = response_data\<rparr> = None"
      by simp
    then have "Q \<lparr>mb_id = myBooksSeq d + 1, userId = uid, bookId = bid, bookState = st,
          currentPage = None, totalPages = pageCount (volumeInfo response_data),
          book = response_data\<rparr>"
      by (rule new)
    moreover note addToMyBooks_new [where axios_get = axios_get and st = st, OF noEntry got known]
    ultimately show ?thesis
      using inv by simp
  qed
qed

lemma stored_page_le:
  assumes "as_Int (if page \<ge> of_int t then of_int t else page) = Some p"
  shows "p \<le> t"
proof -
  from as_Int_Some [OF assms]
  have "(of_int p :: rat) = (if page \<ge> of_int t then of_int t else page)"
    by simp
  then have "(of_int p :: rat) \<le> of_int t"
    by (simp split: if_splits)
  then show ?thesis by simp
qed

lemma stored_page_ge:
  assumes "as_Int (if page \<ge> of_int t then of_int t else page) = Some p"
    and "0 \<le> page" and "0 \<le> t"
  shows "0 \<le> p"
proof -
  from as_Int_Some [OF assms(1)]
  have "(of_int p :: rat) = (if page \<ge> of_int t then of_int t else page)"
    by simp
  with assms(2,3) have "(0 :: rat) \<le> of_int p"
    by (simp split: if_splits)
  then show ?thesis by simp
qed

lemma updateBookReading_preserves:
  assumes keys: "distinct (map mb_id (myBooks d))"
    and inv: "list_all Q (myBooks d)"
    and step: "\<And>e p. MyBooksService_findOne d bid uid = Some e \<Longrightarrow> Q e \<Longrightarrow>
       as_Int (if page \<ge> of_int (totalPages e) then of_int (totalPages e) else page) = Some p \<Longrightarrow>
       Q (e\<lparr>currentPage := Some p,
            bookState := (if page \<ge> of_int (totalPages e) then READ else bookState e)\<rparr>)"
  shows "list_all Q (myBooks (snd (updateBookReading d bid page uid)))"
proof (cases "MyBooksService_findOne d bid uid")
  case None
  with inv show ?thesis by (simp add: updateBookReading_def)
next
  case (Some e)
  note found = this
  from findOne_pair [OF found] inv have "Q e"
    by (simp add: list_all_iff)
  show ?thesis
  proof (cases "as_Int (if page \<ge> of_int (totalPages e) then of_int (totalPages e) else page)")
    case None
    from updateBookReading_refused [OF found None] inv show ?thesis by simp
  next
    case (Some p)
    from found \<open>Q e\<close> Some
    have "Q (e\<lparr>currentPage := Some p,
            bookState := (if page \<ge> of_int (totalPages e) then READ else bookState e)\<rparr>)"
      by (rule step)
    with inv show ?thesis
      by (simp add: updateBookReading_found [OF keys found Some] list_all_replace)
  qed
qed

text \<open>
  C2, amended. In a store whose keys are distinct: \<open>addToMyBooks\<close> preserves the
  invariant \<open>0 \<le> currentPage \<le> totalPages\<close> of the entries whose current page is
  set; both handlers preserve its upper half, \<open>currentPage \<le> totalPages\<close>, for
  every reported page; and \<open>updateBookReading\<close> preserves the whole invariant when
  the reported page is not negative and the total pages of the entry it updates are
  not negative.
\<close>

theorem page_invariant_preserved:
  assumes "distinct (map mb_id (myBooks d))"
  shows "(list_all page_invariant (myBooks d) \<longrightarrow>
            list_all page_invariant (myBooks (snd (addToMyBooks axios_get d uid bid st))))
       \<and> (list_all page_bounded (myBooks d) \<longrightarrow>
            list_all page_bounded (myBooks (snd (addToMyBooks axios_get d uid bid st)))
          \<and> list_all page_bounded (myBooks (snd (updateBookReading d bid page uid))))
       \<and> (list_all page_invariant (myBooks d) \<and> 0 \<le> page
            \<and> (\<forall>e. MyBooksService_findOne d bid uid = Some e \<longrightarrow> 0 \<le> totalPages e) \<longrightarrow>
            list_all page_invariant (myBooks (snd (updateBookReading d bid page uid))))"
proof (intro conjI impI)
  assume "list_all page_invariant (myBooks d)"
  then show "list_all page_invariant (myBooks (snd (addToMyBooks axios_get d uid bid st)))"
    using assms by (intro addToMyBooks_preserves) (simp_all add: page_invariant_new)
next
  assume "list_all page_bounded (myBooks d)"
  then show "list_all page_bounded (myBooks (snd (addToMyBooks axios_get d uid bid st)))"
    using assms by (intro addToMyBooks_preserves) (simp_all add: page_bounded_new)
next
  assume "list_all page_bounded (myBooks d)"
  then show "list_all page_bounded (myBooks (snd (updateBookReading d bid page uid)))"
    using assms by (intro updateBookReading_preserves) (simp_all add: stored_page_le)
next
  assume a: "list_all page_invariant (myBooks d) \<and> 0 \<le> page
            \<and> (\<forall>e. MyBooksService_findOne d bid uid = Some e \<longrightarrow> 0 \<le> totalPages e)"
  then have inv: "list_all page_invariant (myBooks d)" by simp
  show "list_all page_invariant (myBooks (snd (updateBookReading d bid page uid)))"
    using assms inv
  proof (rule updateBookReading_preserves)
    fix e p
    assume "MyBooksService_findOne d bid uid = Some e"
      and stored:
        "as_Int (if page \<ge> of_int (totalPages e) then of_int (totalPages e) else page) = Some p"
    with a have "0 \<le> totalPages e" and "0 \<le> page" by simp_all
    with stored have "0 \<le> p" and "p \<le> totalPages e"
      by (simp_all add: stored_page_ge stored_page_le)
    then show "page_invariant
       (e\<lparr>currentPage := Some p,
            bookState := (if page \<ge> of_int (totalPages e) then READ else bookState e)\<rparr>)"
      by (simp add: page_invariant_def)
  qed
qed

lemma db0_invariant: "list_all page_invariant (myBooks db0)"
  by (simp add: db0_def entry1_def entry2_def page_invariant_def)

lemma db0_bounded: "list_all page_bounded (myBooks db0)"
  by (simp add: db0_def entry1_def entry2_def page_bounded_def)

lemma db0_totalPages:
  "\<forall>e. MyBooksService_findOne db0 ''B1'' 1 = Some e \<longrightarrow> 0 \<le> totalPages e"
  by (simp add: db0_findOne_B1_1 entry1_def)

theorem page_invariant_preserved_witness:
  "distinct (map mb_id (myBooks db0))
   \<and> list_all page_invariant (myBooks db0) \<and> list_all page_bounded (myBooks db0)
   \<and> list_all page_invariant (myBooks (snd (addToMyBooks catalog db0 1 ''B2'' IS_READING)))
   \<and> list_all page_bounded (myBooks (snd (addToMyBooks catalog db0 1 ''B2'' IS_READING)))
   \<and> list_all page_bounded (myBooks (snd (updateBookReading db0 ''B1'' (-5) 1)))
   \<and> (0::rat) \<le> 150
   \<and> list_all page_invariant (myBooks (snd (updateBookReading db0 ''B1'' 150 1)))"
  using page_invariant_preserved [OF db0_keys, of catalog 1 "''B2''" IS_READING 0]
    page_invariant_preserved [OF db0_keys, of catalog 1 "''B1''" IS_READING "-5"]
    page_invariant_preserved [OF db0_keys, of catalog 1 "''B1''" IS_READING 150]
    db0_keys db0_invariant db0_bounded db0_totalPages
  by simp

section \<open>Adding a book that is, or is not, on the list\<close>

lemma count_replace:
  assumes "P e" and "P e'"
  shows "length (filter P (map (\<lambda>x. if x = e then e' else x) rs)) = length (filter P rs)"
  using assms by (induction rs) auto

lemma find_appended:
  assumes "find P rs = None" and "P n"
  shows "find P (rs @ [n]) = Some n"
  using assms by (induction rs) (auto split: if_splits)

text \<open>
  C4. For a pair that has an entry, \<open>addToMyBooks\<close> returns that entry with the
  requested state and nothing else changed (current page, total pages and the
  catalog payload are the same), stores it in the place of the old one, and adds no
  row: the table has as many rows, and as many rows of the pair, as before. The
  catalog plays no part: the result is the same for every \<open>axios_get\<close>.
\<close>

theorem addToMyBooks_existing:
  assumes "distinct (map mb_id (myBooks d))" and "MyBooksService_findOne d bid uid = Some e"
  shows "\<exists>e' d'. addToMyBooks axios_get d uid bid st = (Inr e', d')
           \<and> e' = e\<lparr>bookState := st\<rparr>
           \<and> bookState e' = st
           \<and> currentPage e' = currentPage e \<and> totalPages e' = totalPages e \<and> book e' = book e
           \<and> MyBooksService_findOne d' bid uid = Some e'
           \<and> myBooks d' = map (\<lambda>x. if x = e then e' else x) (myBooks d)
           \<and> length (myBooks d') = length (myBooks d)
           \<and> length (filter (\<lambda>r. bookId r = bid \<and> userId r = uid) (myBooks d')) =
               length (filter (\<lambda>r. bookId r = bid \<and> userId r = uid) (myBooks d))"
proof -
  let ?e' = "e\<lparr>bookState := st\<rparr>"
  let ?d' = "d\<lparr>myBooks := map (\<lambda>x. if x = e then ?e' else x) (myBooks d)\<rparr>"
  let ?P = "\<lambda>r. bookId r = bid \<and> userId r = uid"
  have run: "addToMyBooks axios_get d uid bid st = (Inr ?e', ?d')"
    using assms by (rule addToMyBooks_found)
  from assms(2) have f: "find ?P (myBooks d) = Some e"
    by (simp add: MyBooksService_findOne_def)
  have pair: "?P e" and pair': "?P ?e'"
    using findOne_pair [OF assms(2)] by simp_all
  have stored: "MyBooksService_findOne ?d' bid uid = Some ?e'"
    unfolding MyBooksService_findOne_def
    using find_replaced [OF f, of ?e'] pair' by simp
  have same: "currentPage ?e' = currentPage e \<and> totalPages ?e' = totalPages e
      \<and> book ?e' = book e \<and> bookState ?e' = st"
    by simp
  have rows: "myBooks ?d' = map (\<lambda>x. if x = e then ?e' else x) (myBooks d)
      \<and> length (myBooks ?d') = length (myBooks d)"
    by simp
  have count: "length (filter ?P (myBooks ?d')) = length (filter ?P (myBooks d))"
    using count_replace [of ?P e ?e' "myBooks d"] pair pair' by simp
  from run stored same rows count show ?thesis by blast
qed

theorem addToMyBooks_existing_witness:
  "distinct (map mb_id (myBooks db0)) \<and> MyBooksService_findOne db0 ''B1'' 1 = Some entry1
   \<and> (\<exists>e' d'. addToMyBooks catalog db0 1 ''B1'' READ = (Inr e', d')
         \<and> e' = entry1\<lparr>bookState := READ\<rparr>
         \<and> currentPage e' = None \<and> totalPages e' = 300 \<and> book e' = B1
         \<and> myBooks d' = [e', entry2])"
proof -
  have "entry2 \<noteq> entry1"
    by (simp add: entry1_def entry2_def)
  then have rows: "map (\<lambda>x. if x = entry1 then e' else x) (myBooks db0) = [e', entry2]" for e'
    by (simp add: db0_def)
  have fields: "currentPage entry1 = None \<and> totalPages entry1 = 300 \<and> book entry1 = B1"
    by (simp add: entry1_def)
  from addToMyBooks_existing [OF db0_keys db0_findOne_B1_1, of catalog READ]
  obtain e' d' where "addToMyBooks catalog db0 1 ''B1'' READ = (Inr e', d')"
    and "e' = entry1\<lparr>bookState := READ\<rparr>"
    and "currentPage e' = currentPage entry1" "totalPages e' = totalPages entry1"
      "book e' = book entry1"
    and "myBooks d' = map (\<lambda>x. if x = entry1 then e' else x) (myBooks db0)"
    by blast
  with rows fields db0_keys db0_findOne_B1_1 show ?thesis by auto
qed

text \<open>
  C6. For a pair that has no entry, when the catalog answers and the user exists,
  \<open>addToMyBooks\<close> appends and returns a new entry of the pair: its total pages are
  the page count of the answer, its current page is unset, its state is the
  requested state and its payload is the whole answer.
\<close>

theorem addToMyBooks_creates:
  assumes "MyBooksService_findOne d bid uid = None"
    and "axios_get (''https://www.googleapis.com/books/v1/volumes/'' @ bid) = Some response_data"
    and "list_ex (\<lambda>u. u_id u = uid) (users d)"
  shows "\<exists>n d'. addToMyBooks axios_get d uid bid st = (Inr n, d')
           \<and> totalPages n = pageCount (volumeInfo response_data)
           \<and> currentPage n = None
           \<and> bookState n = st
           \<and> book n = response_data
           \<and> bookId n = bid \<and> userId n = uid
           \<and> myBooks d' = myBooks d @ [n]
           \<and> MyBooksService_findOne d' bid uid = Some n"
proof -
  let ?n = "\<lparr>mb_id = myBooksSeq d + 1, userId = uid, bookId = bid, bookState = st,
          currentPage = None, totalPages = pageCount (volumeInfo response_data),
          book = response_data\<rparr>"
  let ?d' = "d\<lparr>myBooks := myBooks d @ [?n], myBooksSeq := myBooksSeq d + 1\<rparr>"
  have run: "addToMyBooks axios_get d uid bid st = (Inr ?n, ?d')"
    using assms by (rule addToMyBooks_new)
  from assms(1) have "find (\<lambda>r. bookId r = bid \<and> userId r = uid) (myBooks d) = None"
    by (simp add: MyBooksService_findOne_def)
  then have "find (\<lambda>r. bookId r = bid \<and> userId r = uid) (myBooks d @ [?n]) = Some ?n"
    by (rule find_appended) simp
  then have stored: "MyBooksService_findOne ?d' bid uid = Some ?n"
    by (simp add: MyBooksService_findOne_def)
  have fields: "totalPages ?n = pageCount (volumeInfo response_data) \<and> currentPage ?n = None
      \<and> bookState ?n = st \<and> book ?n = response_data \<and> bookId ?n = bid \<and> userId ?n = uid
      \<and> myBooks ?d' = myBooks d @ [?n]"
    by simp
  from run stored fields show ?thesis by blast
qed

lemma db0_findOne_B2_1: "MyBooksService_findOne db0 ''B2'' 1 = None"
  by (simp add: MyBooksService_findOne_def db0_def entry1_def entry2_def)

lemma catalog_B2: "catalog (''https://www.googleapis.com/books/v1/volumes/'' @ ''B2'') = Some B2"
  by (simp add: catalog_def)

lemma db0_user_1: "list_ex (\<lambda>u. u_id u = 1) (users db0)"
  by (simp add: db0_def ann_def)

theorem addToMyBooks_creates_witness:
  "MyBooksService_findOne db0 ''B2'' 1 = None
   \<and> catalog (''https://www.googleapis.com/books/v1/volumes/'' @ ''B2'') = Some B2
   \<and> list_ex (\<lambda>u. u_id u = 1) (users db0)
   \<and> (\<exists>n d'. addToMyBooks catalog db0 1 ''B2'' WANTS_TO_READ = (Inr n, d')
         \<and> totalPages n = 120 \<and> currentPage n = None \<and> bookState n = WANTS_TO_READ
         \<and> book n = B2 \<and> myBooks d' = myBooks db0 @ [n])"
  using addToMyBooks_creates
      [where axios_get = catalog and st = WANTS_TO_READ, OF db0_findOne_B2_1 catalog_B2 db0_user_1]
    db0_findOne_B2_1 catalog_B2 db0_user_1
  by (auto simp: B2_def)

section \<open>What the two handlers leave alone\<close>

lemma other_pairs_append:
  assumes "bookId n = bid \<and> userId n = uid"
  shows "other_pairs bid uid (rs @ [n]) = other_pairs bid uid rs"
  using assms by (simp add: other_pairs_def)

lemma frame_same: "frame bid uid d d"
  by (simp add: frame_def changed_same)

lemma frame_replace:
  assumes "distinct (map mb_id (myBooks d))"
    and "bookId e = bid \<and> userId e = uid" and "bookId e' = bid \<and> userId e' = uid"
  shows "frame bid uid d (d\<lparr>myBooks := map (\<lambda>x. if x = e then e' else x) (myBooks d)\<rparr>)"
  using changed_replace [OF distinct_rows [OF assms(1)], of e e']
    other_pairs_replace [OF assms(2,3), of "myBooks d"]
  by (simp add: frame_def)

lemma frame_append:
  assumes "bookId n = bid \<and> userId n = uid"
  shows "frame bid uid d (d\<lparr>myBooks := myBooks d @ [n], myBooksSeq := k\<rparr>)"
  using other_pairs_append [OF assms, of "myBooks d"]
  by (simp add: frame_def changed_append)

text \<open>
  C10. In a store whose keys are distinct, \<open>updateBookReading\<close> and \<open>addToMyBooks\<close>,
  called by the user \<open>uid\<close> for the book \<open>bid\<close>, leave the users and every row of
  every other pair as they were (the entries of other users, and of the same user
  for other books), change at most one row, and \<open>updateBookReading\<close> adds none,
  \<open>addToMyBooks\<close> at most one.
\<close>

theorem reading_list_frame:
  assumes "distinct (map mb_id (myBooks d))"
  shows "frame bid uid d (snd (updateBookReading d bid page uid))
       \<and> length (myBooks (snd (updateBookReading d bid page uid))) = length (myBooks d)
       \<and> frame bid uid d (snd (addToMyBooks axios_get d uid bid st))"
proof (intro conjI)
  show "frame bid uid d (snd (updateBookReading d bid page uid))"
    using updateBookReading_shape [OF assms, of bid page uid]
  proof (elim disjE exE conjE)
    assume "snd (updateBookReading d bid page uid) = d"
    then show ?thesis by (simp add: frame_same)
  next
    fix e e'
    assume "MyBooksService_findOne d bid uid = Some e" "bookId e' = bid" "userId e' = uid"
      and after: "snd (updateBookReading d bid page uid) =
        d\<lparr>myBooks := map (\<lambda>x. if x = e then e' else x) (myBooks d)\<rparr>"
    then have "bookId e = bid \<and> userId e = uid" "bookId e' = bid \<and> userId e' = uid"
      using findOne_pair [of d bid uid e] by simp_all
    with assms show ?thesis
      unfolding after by (rule frame_replace)
  qed
next
  show "length (myBooks (snd (updateBookReading d bid page uid))) = length (myBooks d)"
    using updateBookReading_shape [OF assms, of bid page uid] by auto
next
  show "frame bid uid d (snd (addToMyBooks axios_get d uid bid st))"
    using addToMyBooks_shape [OF assms, of axios_get uid bid st]
  proof (elim disjE exE conjE)
    assume "snd (addToMyBooks axios_get d uid bid st) = d"
    then show ?thesis by (simp add: frame_same)
  next
    fix e e'
    assume "MyBooksService_findOne d bid uid = Some e" "bookId e' = bid" "userId e' = uid"
      and after: "snd (addToMyBooks axios_get d uid bid st) =
        d\<lparr>myBooks := map (\<lambda>x. if x = e then e' else x) (myBooks d)\<rparr>"
    then have "bookId e = bid \<and> userId e = uid" "bookId e' = bid \<and> userId e' = uid"
      using findOne_pair [of d bid uid e] by simp_all
    with assms show ?thesis
      unfolding after by (rule frame_replace)
  next
    fix n
    assume "bookId n = bid" "userId n = uid"
      and after: "snd (addToMyBooks axios_get d uid bid st) =
        d\<lparr>myBooks := myBooks d @ [n], myBooksSeq := myBooksSeq d + 1\<rparr>"
    then have "bookId n = bid \<and> userId n = uid" by simp
    then show ?thesis
      unfolding after by (rule frame_append)
  qed
qed

theorem reading_list_frame_witness:
  "distinct (map mb_id (myBooks db0))
   \<and> frame ''B1'' 1 db0 (snd (updateBookReading db0 ''B1'' 150 1))
   \<and> frame ''B2'' 1 db0 (snd (addToMyBooks catalog db0 1 ''B2'' READ))
   \<and> other_pairs ''B1'' 1 (myBooks (snd (updateBookReading db0 ''B1'' 150 1))) = [entry2]
   \<and> users (snd (updateBookReading db0 ''B1'' 150 1)) = [ann, bob]"
  using reading_list_frame [OF db0_keys, of "''B1''" 1 150 catalog READ]
    reading_list_frame [OF db0_keys, of "''B2''" 1 150 catalog READ]
    db0_keys
  by (simp add: frame_def other_pairs_def db0_def entry1_def entry2_def)

section \<open>The keys stay distinct\<close>

text \<open>
  The condition on the keys is an invariant of the store: it holds of the empty
  store and both handlers keep it.
\<close>

lemma map_key_replace:
  assumes "mb_id e' = mb_id e"
  shows "map mb_id (map (\<lambda>x. if x = e then e' else x) rs) = map mb_id rs"
  using assms by (induction rs) auto

lemma keys_ok_replace:
  assumes "keys_ok d" and "e \<in> set (myBooks d)" and "mb_id e' = mb_id e"
  shows "keys_ok (d\<lparr>myBooks := map (\<lambda>x. if x = e then e' else x) (myBooks d)\<rparr>)"
proof -
  from assms(1) have keys: "distinct (map mb_id (myBooks d))"
    and below: "list_all (\<lambda>r. mb_id r \<le> myBooksSeq d) (myBooks d)"
    by (simp_all add: keys_ok_def)
  from below assms(2,3) have "mb_id e' \<le> myBooksSeq d"
    by (simp add: list_all_iff)
  with below have
    "list_all (\<lambda>r. mb_id r \<le> myBooksSeq d) (map (\<lambda>x. if x = e then e' else x) (myBooks d))"
    by (rule list_all_replace)
  moreover from keys have
    "distinct (map mb_id (map (\<lambda>x. if x = e then e' else x) (myBooks d)))"
    by (simp only: map_key_replace [OF assms(3)])
  ultimately show ?thesis
    by (simp add: keys_ok_def del: map_map)
qed

lemma keys_ok_updateBookReading:
  assumes "keys_ok d"
  shows "keys_ok (snd (updateBookReading d bid page uid))"
proof -
  from assms have keys: "distinct (map mb_id (myBooks d))"
    by (simp add: keys_ok_def)
  from updateBookReading_shape [OF keys, of bid page uid] show ?thesis
  proof (elim disjE exE conjE)
    assume "snd (updateBookReading d bid page uid) = d"
    with assms show ?thesis by simp
  next
    fix e e'
    assume k: "mb_id e' = mb_id e"
      and found: "MyBooksService_findOne d bid uid = Some e"
      and after: "snd (updateBookReading d bid page uid) =
        d\<lparr>myBooks := map (\<lambda>x. if x = e then e' else x) (myBooks d)\<rparr>"
    from findOne_pair [OF found] have "e \<in> set (myBooks d)" by simp
    with assms show ?thesis
      unfolding after using k by (rule keys_ok_replace)
  qed
qed

lemma keys_ok_addToMyBooks:
  assumes "keys_ok d"
  shows "keys_ok (snd (addToMyBooks axios_get d uid bid st))"
proof -
  from assms have keys: "distinct (map mb_id (myBooks d))"
    by (simp add: keys_ok_def)
  from addToMyBooks_shape [OF keys, of axios_get uid bid st] show ?thesis
  proof (elim disjE exE conjE)
    assume "snd (addToMyBooks axios_get d uid bid st) = d"
    with assms show ?thesis by simp
  next
    fix e e'
    assume k: "mb_id e' = mb_id e"
      and found: "MyBooksService_findOne d bid uid = Some e"
      and after: "snd (addToMyBooks axios_get d uid bid st) =
        d\<lparr>myBooks := map (\<lambda>x. if x = e then e' else x) (myBooks d)\<rparr>"
    from findOne_pair [OF found] have "e \<in> set (myBooks d)" by simp
    with assms show ?thesis
      unfolding after using k by (rule keys_ok_replace)
  next
    fix n
    assume k: "mb_id n = myBooksSeq d + 1"
      and after: "snd (addToMyBooks axios_get d uid bid st) =
        d\<lparr>myBooks := myBooks d @ [n], myBooksSeq := myBooksSeq d + 1\<rparr>"
    from assms have "\<forall>r \<in> set (myBooks d). mb_id r \<le> myBooksSeq d"
      by (simp add: keys_ok_def list_all_iff)
    with k assms show ?thesis
      unfolding after by (fastforce simp: keys_ok_def list_all_iff)
  qed
qed

lemma keys_ok_empty: "keys_ok \<lparr>users = [], userSeq = 0, myBooks = [], myBooksSeq = 0\<rparr>"
  by (simp add: keys_ok_def)

section \<open>Every entry the handlers make\<close>

lemma signup_myBooks:
  "myBooks (snd (signup bc d n e p)) = myBooks d
   \<and> myBooksSeq (snd (signup bc d n e p)) = myBooksSeq d"
  by (simp add: signup_def UserService_createUser_def Let_def split: option.splits)

lemma reachable_invariant:
  assumes "reachable d"
  shows "keys_ok d \<and> list_all page_bounded (myBooks d)"
  using assms
proof (induction)
  case reachable_empty
  show ?case by (simp add: empty_db_def keys_ok_def)
next
  case (reachable_signup d bc n e p)
  with signup_myBooks [of bc d n e p] show ?case
    by (simp add: keys_ok_def)
next
  case (reachable_addToMyBooks d axios_get uid bid st)
  then have keys: "keys_ok d" and inv: "list_all page_bounded (myBooks d)"
    by simp_all
  from keys have "distinct (map mb_id (myBooks d))"
    by (simp add: keys_ok_def)
  then have "list_all page_bounded (myBooks (snd (addToMyBooks axios_get d uid bid st)))"
    using inv by (rule addToMyBooks_preserves) (simp_all add: page_bounded_new)
  with keys show ?case
    by (simp add: keys_ok_addToMyBooks)
next
  case (reachable_updateBookReading d bid page uid)
  then have keys: "keys_ok d" and inv: "list_all page_bounded (myBooks d)"
    by simp_all
  from keys have "distinct (map mb_id (myBooks d))"
    by (simp add: keys_ok_def)
  then have "list_all page_bounded (myBooks (snd (updateBookReading d bid page uid)))"
    using inv by (rule updateBookReading_preserves) (simp add: stored_page_le)
  with keys show ?case
    by (simp add: keys_ok_updateBookReading)
qed

text \<open>
  C5. For an entry that exists in a store the handlers have made, whatever the
  reported page is: when \<open>updateBookReading\<close> succeeds, the entry it returns, which
  is the entry of the pair in the store afterwards, has a current page that is set
  and at most its total pages (which the call does not change); when it fails, the
  store is as before. Either way the entry of the pair after the call has a current
  page that is at most its total pages, or still unset.
\<close>

theorem updateBookReading_within_total:
  assumes "reachable d" and "MyBooksService_findOne d bid uid = Some e"
  shows "(\<forall>e' d'. updateBookReading d bid page uid = (Inr e', d') \<longrightarrow>
            MyBooksService_findOne d' bid uid = Some e' \<and> totalPages e' = totalPages e
            \<and> (\<exists>p. currentPage e' = Some p \<and> p \<le> totalPages e'))
       \<and> (\<forall>err d'. updateBookReading d bid page uid = (Inl err, d') \<longrightarrow> d' = d)
       \<and> (\<exists>e'. MyBooksService_findOne (snd (updateBookReading d bid page uid)) bid uid = Some e'
             \<and> totalPages e' = totalPages e \<and> page_bounded e')"
proof -
  from reachable_invariant [OF assms(1)]
  have keys: "distinct (map mb_id (myBooks d))" and inv: "list_all page_bounded (myBooks d)"
    by (simp_all add: keys_ok_def)
  from findOne_pair [OF assms(2)] inv have before: "page_bounded e"
    by (simp add: list_all_iff)
  show ?thesis
  proof (cases "as_Int (if page \<ge> of_int (totalPages e) then of_int (totalPages e) else page)")
    case None
    from updateBookReading_refused [OF assms(2) None] assms(2) before show ?thesis
      by simp
  next
    case (Some p)
    let ?e' = "e\<lparr>currentPage := Some p,
            bookState := (if page \<ge> of_int (totalPages e) then READ else bookState e)\<rparr>"
    let ?d' = "d\<lparr>myBooks := map (\<lambda>x. if x = e then ?e' else x) (myBooks d)\<rparr>"
    have run: "updateBookReading d bid page uid = (Inr ?e', ?d')"
      using keys assms(2) Some by (rule updateBookReading_found)
    have stored: "MyBooksService_findOne ?d' bid uid = Some ?e'"
      using assms(2) by (rule updateBookReading_stored)
    from Some have le: "p \<le> totalPages e"
      by (rule stored_page_le)
    then have bound: "totalPages ?e' = totalPages e \<and> currentPage ?e' = Some p
        \<and> p \<le> totalPages ?e' \<and> page_bounded ?e'"
      by (simp add: page_bounded_def)
    from run stored bound show ?thesis
      by simp
  qed
qed

lemma db1_value: "db1 = \<lparr>users = [ann], userSeq = 1, myBooks = [entry1], myBooksSeq = 1\<rparr>"
  by (simp add: db1_def empty_db_def signup_def UserService_findOne_def
      UserService_createUser_def bcrypt0_def addToMyBooks_def MyBooksService_findOne_def
      MyBooksService_createMyBook_def catalog_def ann_def entry1_def B1_def Let_def)

lemma db1_reachable: "reachable db1"
  unfolding db1_def by (intro reachable.intros)

lemma db1_findOne: "MyBooksService_findOne db1 ''B1'' 1 = Some entry1"
  by (simp add: db1_value MyBooksService_findOne_def entry1_def)

theorem updateBookReading_within_total_witness:
  "reachable db1 \<and> MyBooksService_findOne db1 ''B1'' 1 = Some entry1
   \<and> updateBookReading db1 ''B1'' 100000 1 =
       (Inr (entry1\<lparr>currentPage := Some 300, bookState := READ\<rparr>),
        db1\<lparr>myBooks := [entry1\<lparr>currentPage := Some 300, bookState := READ\<rparr>]\<rparr>)
   \<and> (\<exists>p. currentPage (entry1\<lparr>currentPage := Some 300, bookState := READ\<rparr>) = Some p
         \<and> p \<le> totalPages (entry1\<lparr>currentPage := Some 300, bookState := READ\<rparr>))
   \<and> updateBookReading db1 ''B1'' (- 2147483649) 1 =
       (Inl (PrismaError ''Invalid value for argument currentPage: expected Int''), db1)
   \<and> (\<exists>e'. MyBooksService_findOne (snd (updateBookReading db1 ''B1'' (- 2147483649) 1)) ''B1'' 1
               = Some e'
         \<and> totalPages e' = 300 \<and> page_bounded e')"
proof -
  have run: "updateBookReading db1 ''B1'' 100000 1 =
       (Inr (entry1\<lparr>currentPage := Some 300, bookState := READ\<rparr>),
        db1\<lparr>myBooks := [entry1\<lparr>currentPage := Some 300, bookState := READ\<rparr>]\<rparr>)"
    by (simp add: db1_value updateBookReading_def MyBooksService_findOne_def
        MyBooksService_updateMyBook_def Int_argument_def as_Int_def Int_column_def
        apply_update_def entry1_def)
  have fail: "updateBookReading db1 ''B1'' (- 2147483649) 1 =
       (Inl (PrismaError ''Invalid value for argument currentPage: expected Int''), db1)"
    by (simp add: db1_value updateBookReading_def MyBooksService_findOne_def
        MyBooksService_updateMyBook_def Int_argument_def as_Int_def Int_column_def
        entry1_def)
  have pages: "totalPages entry1 = 300"
    by (simp add: entry1_def)
  note t = updateBookReading_within_total [OF db1_reachable db1_findOne]
  from t [of 100000] run
  have b: "\<exists>p. currentPage (entry1\<lparr>currentPage := Some 300, bookState := READ\<rparr>) = Some p
         \<and> p \<le> totalPages (entry1\<lparr>currentPage := Some 300, bookState := READ\<rparr>)"
    by simp
  from t [of "- 2147483649"] pages
  have c: "\<exists>e'. MyBooksService_findOne (snd (updateBookReading db1 ''B1'' (- 2147483649) 1))
              ''B1'' 1 = Some e' \<and> totalPages e' = 300 \<and> page_bounded e'"
    by simp
  from db1_reachable db1_findOne run b fail c show ?thesis
    by simp
qed

section \<open>Refreshing a session\<close>

lemma indexOf_bounds: "indexOf xs y \<ge> -1 \<and> (indexOf xs y = -1 \<longleftrightarrow> y \<notin> set xs)"
  by (induction xs) (auto simp: Let_def)

lemma indexOf_absent: "indexOf xs y = -1 \<longleftrightarrow> y \<notin> set xs"
  using indexOf_bounds [of xs y] by simp

lemma spans:
  "expiresIn_seconds ''30 second'' = Some 30" "expiresIn_seconds ''1 minute'' = Some 60"
  "expiresIn_seconds ''1 hour'' = Some 3600" "expiresIn_seconds ''3 hours'' = Some 10800"
  by (simp_all add: expiresIn_seconds_def ms_def unit_ms_def digit_def)

lemma findOne_id:
  assumes "UserService_findOne d (where_id i) = Some u"
  shows "u_id u = i"
  using assms by (auto simp: UserService_findOne_def find_Some_iff)

lemma refresh_rejected:
  assumes "verifyAsync jwtService (at (split CHR '' '' authorization) 1) = None
    \<or> (\<exists>payload. verifyAsync jwtService (at (split CHR '' '' authorization) 1) = Some payload
          \<and> (''refreshToken'' \<notin> set (scope payload)
              \<or> UserService_findOne d (where_id (AccessTokenPayload.userId payload)) = None))"
  shows "refresh jwtService d authorization =
    (Inl (UnauthorizedException ''Cannot refresh session''), d)"
  using assms by (auto simp: refresh_def indexOf_absent Let_def)

lemma refresh_accepted:
  assumes "verifyAsync jwtService (at (split CHR '' '' authorization) 1) = Some payload"
    and "''refreshToken'' \<in> set (scope payload)"
    and "UserService_findOne d (where_id (AccessTokenPayload.userId payload)) = Some u"
  shows "refresh jwtService d authorization =
    (Inr \<lparr>RefreshResponse.accessToken =
            sign jwtService \<lparr>scope = [''accessToken''],
              AccessTokenPayload.userId = AccessTokenPayload.userId payload\<rparr> ''30 second'',
          RefreshResponse.refreshToken =
            sign jwtService \<lparr>scope = [''refreshToken''],
              AccessTokenPayload.userId = AccessTokenPayload.userId payload\<rparr> ''1 minute''\<rparr>, d)"
  using assms findOne_id [OF assms(3)] by (simp add: refresh_def indexOf_absent Let_def)

text \<open>
  C8. The credential \<open>refresh\<close> is presented with is the second word of the
  header. When it does not verify, or its scope lacks \<open>refreshToken\<close>, or no user
  has the key of its payload, \<open>refresh\<close> throws the \<open>UnauthorizedException\<close> of the
  handler; otherwise it succeeds with an access token and a refresh token signed for
  the user of the payload. The store is the same either way.
\<close>

theorem refresh_outcome:
  "(verifyAsync jwtService (at (split CHR '' '' authorization) 1) = None \<longrightarrow>
      refresh jwtService d authorization =
        (Inl (UnauthorizedException ''Cannot refresh session''), d))
   \<and> (\<forall>payload. verifyAsync jwtService (at (split CHR '' '' authorization) 1) = Some payload \<longrightarrow>
        (if ''refreshToken'' \<in> set (scope payload)
            \<and> UserService_findOne d (where_id (AccessTokenPayload.userId payload)) \<noteq> None
         then \<exists>r a b. refresh jwtService d authorization = (Inr r, d)
                \<and> RefreshResponse.accessToken r =
                    sign jwtService \<lparr>scope = [''accessToken''],
                      AccessTokenPayload.userId = AccessTokenPayload.userId payload\<rparr> a
                \<and> RefreshResponse.refreshToken r =
                    sign jwtService \<lparr>scope = [''refreshToken''],
                      AccessTokenPayload.userId = AccessTokenPayload.userId payload\<rparr> b
         else refresh jwtService d authorization =
                (Inl (UnauthorizedException ''Cannot refresh session''), d)))"
proof (intro conjI allI impI)
  assume "verifyAsync jwtService (at (split CHR '' '' authorization) 1) = None"
  then show "refresh jwtService d authorization =
      (Inl (UnauthorizedException ''Cannot refresh session''), d)"
    by (simp add: refresh_rejected)
next
  fix payload
  assume v: "verifyAsync jwtService (at (split CHR '' '' authorization) 1) = Some payload"
  show "if ''refreshToken'' \<in> set (scope payload)
            \<and> UserService_findOne d (where_id (AccessTokenPayload.userId payload)) \<noteq> None
         then \<exists>r a b. refresh jwtService d authorization = (Inr r, d)
                \<and> RefreshResponse.accessToken r =
                    sign jwtService \<lparr>scope = [''accessToken''],
                      AccessTokenPayload.userId = AccessTokenPayload.userId payload\<rparr> a
                \<and> RefreshResponse.refreshToken r =
                    sign jwtService \<lparr>scope = [''refreshToken''],
                      AccessTokenPayload.userId = AccessTokenPayload.userId payload\<rparr> b
         else refresh jwtService d authorization =
                (Inl (UnauthorizedException ''Cannot refresh session''), d)"
  proof (cases "''refreshToken'' \<in> set (scope payload)
            \<and> UserService_findOne d (where_id (AccessTokenPayload.userId payload)) \<noteq> None")
    case True
    then obtain u where
      "UserService_findOne d (where_id (AccessTokenPayload.userId payload)) = Some u"
      by auto
    with v True have "refresh jwtService d authorization =
      (Inr \<lparr>RefreshResponse.accessToken =
            sign jwtService \<lparr>scope = [''accessToken''],
              AccessTokenPayload.userId = AccessTokenPayload.userId payload\<rparr> ''30 second'',
          RefreshResponse.refreshToken =
            sign jwtService \<lparr>scope = [''refreshToken''],
              AccessTokenPayload.userId = AccessTokenPayload.userId payload\<rparr> ''1 minute''\<rparr>, d)"
      by (simp add: refresh_accepted)
    then have "\<exists>r a b. refresh jwtService d authorization = (Inr r, d)
                \<and> RefreshResponse.accessToken r =
                    sign jwtService \<lparr>scope = [''accessToken''],
                      AccessTokenPayload.userId = AccessTokenPayload.userId payload\<rparr> a
                \<and> RefreshResponse.refreshToken r =
                    sign jwtService \<lparr>scope = [''refreshToken''],
                      AccessTokenPayload.userId = AccessTokenPayload.userId payload\<rparr> b"
      by (metis RefreshResponse.select_convs(1,2))
    with True show ?thesis by simp
  next
    case False
    with v have "refresh jwtService d authorization =
        (Inl (UnauthorizedException ''Cannot refresh session''), d)"
      by (intro refresh_rejected) auto
    with False show ?thesis by simp
  qed
qed

theorem refresh_outcome_witness:
  "refresh jwt0 db0 ''R1:3hours'' =
     (Inl (UnauthorizedException ''Cannot refresh session''), db0)
   \<and> refresh jwt0 db0 ''Bearer A1:1hour'' =
     (Inl (UnauthorizedException ''Cannot refresh session''), db0)
   \<and> refresh jwt0 db0 ''Bearer R9:3hours'' =
     (Inl (UnauthorizedException ''Cannot refresh session''), db0)
   \<and> (\<exists>r. refresh jwt0 db0 ''Bearer R1:3hours'' = (Inr r, db0)
         \<and> RefreshResponse.accessToken r = ''A1:30second''
         \<and> RefreshResponse.refreshToken r = ''R1:1minute'')"
proof -
  have v0: "verifyAsync jwt0 (at (split CHR '' '' ''R1:3hours'') 1) = None"
    by (simp add: jwt0_def)
  have vA: "verifyAsync jwt0 (at (split CHR '' '' ''Bearer A1:1hour'') 1) =
      Some \<lparr>scope = [''accessToken''], AccessTokenPayload.userId = 1\<rparr>"
    by (simp add: jwt0_def)
  have v9: "verifyAsync jwt0 (at (split CHR '' '' ''Bearer R9:3hours'') 1) =
      Some \<lparr>scope = [''refreshToken''], AccessTokenPayload.userId = 9\<rparr>"
    by (simp add: jwt0_def)
  have v1: "verifyAsync jwt0 (at (split CHR '' '' ''Bearer R1:3hours'') 1) =
      Some \<lparr>scope = [''refreshToken''], AccessTokenPayload.userId = 1\<rparr>"
    by (simp add: jwt0_def)
  have u9: "UserService_findOne db0 (where_id 9) = None"
    by (simp add: UserService_findOne_def db0_def ann_def bob_def)
  have u1: "UserService_findOne db0 (where_id 1) \<noteq> None"
    by (simp add: UserService_findOne_def db0_def ann_def bob_def)
  from refresh_outcome [of jwt0 "''R1:3hours''" db0] v0
  have "refresh jwt0 db0 ''R1:3hours'' =
      (Inl (UnauthorizedException ''Cannot refresh session''), db0)"
    by simp
  moreover from refresh_outcome [of jwt0 "''Bearer A1:1hour''" db0] vA
  have "refresh jwt0 db0 ''Bearer A1:1hour'' =
      (Inl (UnauthorizedException ''Cannot refresh session''), db0)"
    by simp
  moreover from refresh_outcome [of jwt0 "''Bearer R9:3hours''" db0] v9 u9
  have "refresh jwt0 db0 ''Bearer R9:3hours'' =
      (Inl (UnauthorizedException ''Cannot refresh session''), db0)"
    by simp
  moreover from refresh_outcome [of jwt0 "''Bearer R1:3hours''" db0] v1 u1
  have "\<exists>r. refresh jwt0 db0 ''Bearer R1:3hours'' = (Inr r, db0)"
    by auto
  moreover have "refresh jwt0 db0 ''Bearer R1:3hours'' =
     (Inr \<lparr>RefreshResponse.accessToken = ''A1:30second'',
           RefreshResponse.refreshToken = ''R1:1minute''\<rparr>, db0)"
    by (simp add: refresh_def jwt0_def db0_def UserService_findOne_def ann_def bob_def)
  ultimately show ?thesis by simp
qed

section \<open>The lifetime of the tokens\<close>

lemma shorter_spans: "shorter ''30 second'' ''1 hour''" "shorter ''1 minute'' ''3 hours''"
  by (simp_all add: shorter_def spans)

lemma signin_accepted:
  assumes "signin bc jwtService d e p = (Inr r, d')"
  shows "d' = d \<and> (\<exists>u. UserService_findOne d (where_email e) = Some u
      \<and> compare bc p (password u)
      \<and> user r = UserModel.truncate u
      \<and> accessToken r = sign jwtService
           \<lparr>scope = [''accessToken''], AccessTokenPayload.userId = u_id u\<rparr> ''1 hour''
      \<and> refreshToken r = sign jwtService
           \<lparr>scope = [''refreshToken''], AccessTokenPayload.userId = u_id u\<rparr> ''3 hours'')"
  using assms
  by (auto simp: signin_def Let_def split: option.splits if_splits)

lemma refresh_accepted_only:
  assumes "refresh jwtService d authorization = (Inr r, d')"
  shows "d' = d \<and> (\<exists>payload.
        verifyAsync jwtService (at (split CHR '' '' authorization) 1) = Some payload
      \<and> RefreshResponse.accessToken r =
            sign jwtService \<lparr>scope = [''accessToken''],
              AccessTokenPayload.userId = AccessTokenPayload.userId payload\<rparr> ''30 second''
      \<and> RefreshResponse.refreshToken r =
            sign jwtService \<lparr>scope = [''refreshToken''],
              AccessTokenPayload.userId = AccessTokenPayload.userId payload\<rparr> ''1 minute'')"
proof (cases "verifyAsync jwtService (at (split CHR '' '' authorization) 1)")
  case None
  then have "refresh jwtService d authorization =
      (Inl (UnauthorizedException ''Cannot refresh session''), d)"
    by (simp add: refresh_rejected)
  with assms show ?thesis by simp
next
  case (Some payload)
  show ?thesis
  proof (cases "''refreshToken'' \<in> set (scope payload)
            \<and> UserService_findOne d (where_id (AccessTokenPayload.userId payload)) \<noteq> None")
    case True
    then obtain u where
      "UserService_findOne d (where_id (AccessTokenPayload.userId payload)) = Some u"
      by auto
    with Some True assms show ?thesis
      by (auto simp: refresh_accepted)
  next
    case False
    with Some have "refresh jwtService d authorization =
        (Inl (UnauthorizedException ''Cannot refresh session''), d)"
      by (intro refresh_rejected) auto
    with assms show ?thesis by simp
  qed
qed

text \<open>
  C7. The pair a successful \<open>refresh\<close> returns is signed with the lifetimes
  \<open>30 second\<close> (access) and \<open>1 minute\<close> (refresh), 30 and 60 seconds; the pair a
  successful \<open>signin\<close> returns with \<open>1 hour\<close> and \<open>3 hours\<close>, 3600 and 10800
  seconds: each lifetime of \<open>refresh\<close> is shorter than the one of \<open>signin\<close>.
\<close>

theorem refresh_expiry:
  assumes "refresh jwtService d authorization = (Inr r, d')"
    and "signin bc jwtService d0 e p = (Inr r0, d0')"
  shows "\<exists>i i0.
      RefreshResponse.accessToken r =
        sign jwtService \<lparr>scope = [''accessToken''], AccessTokenPayload.userId = i\<rparr>
          ''30 second''
    \<and> RefreshResponse.refreshToken r =
        sign jwtService \<lparr>scope = [''refreshToken''], AccessTokenPayload.userId = i\<rparr>
          ''1 minute''
    \<and> accessToken r0 =
        sign jwtService \<lparr>scope = [''accessToken''], AccessTokenPayload.userId = i0\<rparr>
          ''1 hour''
    \<and> refreshToken r0 =
        sign jwtService \<lparr>scope = [''refreshToken''], AccessTokenPayload.userId = i0\<rparr>
          ''3 hours''
    \<and> expiresIn_seconds ''30 second'' = Some 30 \<and> expiresIn_seconds ''1 minute'' = Some 60
    \<and> expiresIn_seconds ''1 hour'' = Some 3600 \<and> expiresIn_seconds ''3 hours'' = Some 10800
    \<and> shorter ''30 second'' ''1 hour'' \<and> shorter ''1 minute'' ''3 hours''"
proof -
  from refresh_accepted_only [OF assms(1)] obtain payload :: AccessTokenPayload where
    r: "RefreshResponse.accessToken r =
            sign jwtService \<lparr>scope = [''accessToken''],
              AccessTokenPayload.userId = AccessTokenPayload.userId payload\<rparr> ''30 second''"
       "RefreshResponse.refreshToken r =
            sign jwtService \<lparr>scope = [''refreshToken''],
              AccessTokenPayload.userId = AccessTokenPayload.userId payload\<rparr> ''1 minute''"
    by auto
  from signin_accepted [OF assms(2)] obtain u :: User where
    r0: "accessToken r0 = sign jwtService
           \<lparr>scope = [''accessToken''], AccessTokenPayload.userId = u_id u\<rparr> ''1 hour''"
        "refreshToken r0 = sign jwtService
           \<lparr>scope = [''refreshToken''], AccessTokenPayload.userId = u_id u\<rparr> ''3 hours''"
    by auto
  from r r0 spans shorter_spans show ?thesis
    by (intro exI [of _ "AccessTokenPayload.userId payload"] exI [of _ "u_id u"]) simp
qed

lemma refresh_R1:
  "refresh jwt0 db0 ''Bearer R1:3hours'' =
     (Inr \<lparr>RefreshResponse.accessToken = ''A1:30second'',
           RefreshResponse.refreshToken = ''R1:1minute''\<rparr>, db0)"
  by (simp add: refresh_def jwt0_def db0_def UserService_findOne_def ann_def bob_def)

lemma signin_ann:
  "signin bcrypt0 jwt0 db0 ''ann@x.org'' ''A'' =
     (Inr \<lparr>user = \<lparr>u_id = 1, name = Some ''Ann'', email = ''ann@x.org'', avatar = None\<rparr>,
           accessToken = ''A1:1hour'', refreshToken = ''R1:3hours''\<rparr>, db0)"
  by (simp add: signin_def jwt0_def bcrypt0_def db0_def UserService_findOne_def ann_def bob_def
      UserModel.truncate_def)

theorem refresh_expiry_witness:
  "refresh jwt0 db0 ''Bearer R1:3hours'' =
     (Inr \<lparr>RefreshResponse.accessToken = ''A1:30second'',
           RefreshResponse.refreshToken = ''R1:1minute''\<rparr>, db0)
   \<and> signin bcrypt0 jwt0 db0 ''ann@x.org'' ''A'' =
     (Inr \<lparr>user = \<lparr>u_id = 1, name = Some ''Ann'', email = ''ann@x.org'', avatar = None\<rparr>,
           accessToken = ''A1:1hour'', refreshToken = ''R1:3hours''\<rparr>, db0)
   \<and> (\<exists>i i0. ''A1:30second'' =
          sign jwt0 \<lparr>scope = [''accessToken''], AccessTokenPayload.userId = i\<rparr> ''30 second''
        \<and> ''R1:3hours'' =
          sign jwt0 \<lparr>scope = [''refreshToken''], AccessTokenPayload.userId = i0\<rparr> ''3 hours'')
   \<and> shorter ''30 second'' ''1 hour'' \<and> shorter ''1 minute'' ''3 hours''"
  using refresh_expiry [OF refresh_R1 signin_ann] refresh_R1 signin_ann
  by auto

section \<open>Signing up and signing in\<close>










end
